theory Spec2Isabelle
  imports Complex_Main "HOL-Library.Sublist"
begin

section \<open>ProfileDots: the interactive dot grid of \<^verbatim>\<open>interactive_dots.js\<close>\<close>

text \<open>
  The component is one JavaScript class. Its numbers (coordinates, spacings, timestamps,
  phases) are modelled as \<^typ>\<open>real\<close>. The counters of the two grid loops are rounded to
  a double after each addition, as the code's are, since the number of dots depends on the
  rounded values. Everywhere else the model computes the exact value, of which the code's is
  the rounding; \<^verbatim>\<open>NaN\<close> and the infinities are not modelled. The sizes, positions and
  timestamps at which the theorems of the claims are evaluated are small integers, which
  doubles represent, add and compare exactly.

  What the host gives the code is an argument of the model: the result of
  \<^verbatim>\<open>Date.now()\<close>, the bounding rectangles, the successive results of
  \<^verbatim>\<open>Math.random()\<close> (a function from the number of the call to its result) and the
  handle returned by \<^verbatim>\<open>requestAnimationFrame\<close>. What the code does to the host (calls
  on the 2D context, listeners it registers, the frame it requests) is returned as a list of
  effects, in the order of the calls.
\<close>

subsection \<open>Data\<close>

record dot =
  dot_x :: real
  dot_y :: real
  originalX :: real
  originalY :: real
  phase :: real

record ripple =
  ripple_x :: real
  ripple_y :: real
  ripple_time :: real
  intensity :: real

record mouse =
  mouse_x :: real
  mouse_y :: real
  isDown :: bool

subsection \<open>Doubles\<close>

text \<open>
  \<open>round_double x\<close> is the double nearest to \<open>x\<close>, ties going to the even significand
  (IEEE 754 binary64, round to nearest, ties to even): a double is an integer multiple of
  \<open>2 powi (e - 52)\<close>, where \<open>e\<close> is the exponent of \<open>x\<close>, not below \<open>-1022\<close>, the exponent
  of the subnormal numbers. A sum of magnitude \<open>2 ^ 1024\<close> or more, which the code rounds to
  an infinity, is outside the model.
\<close>

definition round_half_even :: "real \<Rightarrow> int" where
  "round_half_even r =
     (let f = \<lfloor>r\<rfloor>
      in if r - of_int f < 1 / 2 then f
         else if 1 / 2 < r - of_int f then f + 1
         else if even f then f else f + 1)"

definition double_exponent :: "real \<Rightarrow> int" where
  "double_exponent x = max \<lfloor>log 2 \<bar>x\<bar>\<rfloor> (- 1022)"

definition round_double :: "real \<Rightarrow> real" where
  "round_double x =
     (if x = 0 then 0
      else of_int (round_half_even (x / 2 powi (double_exponent x - 52)))
             * 2 powi (double_exponent x - 52))"

subsection \<open>Grid generation\<close>

text \<open>
  \<^verbatim>\<open>initDots\<close> is two nested \<^verbatim>\<open>for\<close> loops whose counters start at
  \<^verbatim>\<open>gridSpacing / 2\<close> and advance by \<^verbatim>\<open>gridSpacing\<close>, each sum rounded to a double.
  With a spacing that is not positive, or too small to move the rounded counter, they never
  end, so each loop is a partial function: \<open>None\<close> is the loop that does not return. The phase of the \<open>k\<close>-th dot pushed is the
  \<open>k\<close>-th result of \<^verbatim>\<open>Math.random()\<close>, times \<open>2\<pi>\<close>.
\<close>

definition push_dot :: "(nat \<Rightarrow> real) \<Rightarrow> real \<Rightarrow> real \<Rightarrow> dot list \<Rightarrow> dot list" where
  "push_dot random x y acc =
     acc @ [\<lparr>dot_x = x, dot_y = y, originalX = x, originalY = y,
             phase = random (length acc) * pi * 2\<rparr>]"

partial_function (option)
  initDots_y :: "real \<Rightarrow> (nat \<Rightarrow> real) \<Rightarrow> real \<Rightarrow> real \<Rightarrow> real \<Rightarrow> dot list \<Rightarrow> dot list option"
where
  "initDots_y spacing random height x y acc =
     (if y < height
      then initDots_y spacing random height x (round_double (y + spacing))
             (push_dot random x y acc)
      else Some acc)"

partial_function (option)
  initDots_x :: "real \<Rightarrow> (nat \<Rightarrow> real) \<Rightarrow> real \<Rightarrow> real \<Rightarrow> real \<Rightarrow> dot list \<Rightarrow> dot list option"
where
  "initDots_x spacing random width height x acc =
     (if x < width
      then Option.bind (initDots_y spacing random height x (round_double (spacing / 2)) acc)
             (\<lambda>acc'. initDots_x spacing random width height (round_double (x + spacing)) acc')
      else Some acc)"

subsection \<open>The instance and what it does to the host\<close>

text \<open>
  \<open>canvas_width\<close> and \<open>canvas_height\<close> are the \<^verbatim>\<open>width\<close> and \<^verbatim>\<open>height\<close>
  attributes of the canvas element, which keep the integer part of what is assigned to them.
  The size written to \<^verbatim>\<open>canvas.style\<close> is never read back; it is the effect \<open>StyleSize\<close>.
  \<open>animationFrameId\<close> is \<open>None\<close> for \<^verbatim>\<open>null\<close>.
\<close>

record profile_dots =
  canvas_width :: int
  canvas_height :: int
  backgroundColor :: string
  dotColor :: string
  gridSpacing :: real
  animationSpeed :: real
  removeWaveLine :: bool
  time :: real
  mouse :: mouse
  ripples :: "ripple list"
  dots :: "dot list"
  dpr :: real
  animationFrameId :: "nat option"

text \<open>
  The constructor returns early when the canvas is missing: the object then has the field
  \<^verbatim>\<open>canvas\<close> (\<^verbatim>\<open>null\<close>) and no other. That object is \<open>Unmounted\<close>.
\<close>

datatype ProfileDots = Unmounted | Mounted profile_dots

datatype target = Window | Document | Canvas

text \<open>
  \<open>FillStyle c a\<close> stands for the assignment of \<^verbatim>\<open>rgba(r, g, b, a)\<close> where
  \<^verbatim>\<open>r\<close>, \<^verbatim>\<open>g\<close>, \<^verbatim>\<open>b\<close> are parsed from the colour string \<open>c\<close>;
  \<open>StrokeStyle a\<close> for \<^verbatim>\<open>rgba(100, 100, 100, a)\<close>.
\<close>

datatype effect =
    AddEventListener target string
  | StyleSize real real
  | Scale real real
  | ClearRect real real real real
  | BeginPath
  | Arc real real real real real
  | FillStyle string real
  | Fill
  | StrokeStyle real
  | LineWidth real
  | Stroke
  | RequestAnimationFrame

datatype error = TypeError

record rect =
  rect_left :: real
  rect_top :: real
  rect_width :: real
  rect_height :: real

record pointer =
  clientX :: real
  clientY :: real

subsection \<open>Resize\<close>

definition initDots :: "(nat \<Rightarrow> real) \<Rightarrow> real \<Rightarrow> real \<Rightarrow> profile_dots \<Rightarrow> profile_dots option" where
  "initDots random width height s =
     map_option (\<lambda>ds. s\<lparr>dots := ds\<rparr>)
       (initDots_x (gridSpacing s) random width height (round_double (gridSpacing s / 2)) [])"

text \<open>\<open>parent\<close> is the bounding rectangle of the canvas's parent element.\<close>

definition resize :: "rect \<Rightarrow> (nat \<Rightarrow> real) \<Rightarrow> profile_dots \<Rightarrow> (profile_dots \<times> effect list) option" where
  "resize parent random s =
     (let displayWidth = rect_width parent;
          displayHeight = rect_height parent;
          s1 = s\<lparr>canvas_width := \<lfloor>displayWidth * dpr s\<rfloor>,
                 canvas_height := \<lfloor>displayHeight * dpr s\<rfloor>\<rparr>
      in map_option (\<lambda>s2. (s2, [StyleSize displayWidth displayHeight, Scale (dpr s) (dpr s)]))
           (initDots random displayWidth displayHeight s1))"

subsection \<open>Event handlers\<close>

text \<open>
  Each handler takes what its event and the host give it: the pointer, the bounding
  rectangle of the canvas, and the results of its calls of \<^verbatim>\<open>Date.now()\<close>. The
  mouse-down handler calls \<^verbatim>\<open>Date.now()\<close> twice, once for the new ripple and once
  for the filter.
\<close>

definition on_mousemove :: "pointer \<Rightarrow> rect \<Rightarrow> profile_dots \<Rightarrow> profile_dots" where
  "on_mousemove e r s =
     s\<lparr>mouse := (mouse s)\<lparr>mouse_x := clientX e - rect_left r,
                           mouse_y := clientY e - rect_top r\<rparr>\<rparr>"

definition on_mousedown :: "pointer \<Rightarrow> rect \<Rightarrow> real \<Rightarrow> real \<Rightarrow> profile_dots \<Rightarrow> profile_dots" where
  "on_mousedown e r pushed now s =
     (let s1 = s\<lparr>mouse := (mouse s)\<lparr>isDown := True\<rparr>\<rparr>;
          s2 = s1\<lparr>ripples := ripples s1 @
                  [\<lparr>ripple_x = clientX e - rect_left r, ripple_y = clientY e - rect_top r,
                    ripple_time = pushed, intensity = 2\<rparr>]\<rparr>
      in s2\<lparr>ripples := filter (\<lambda>r. now - ripple_time r < 3000) (ripples s2)\<rparr>)"

definition on_mouseup :: "profile_dots \<Rightarrow> profile_dots" where
  "on_mouseup s = s\<lparr>mouse := (mouse s)\<lparr>isDown := False\<rparr>\<rparr>"

text \<open>
  \<^verbatim>\<open>e.touches[0]\<close> of an empty touch list is \<^verbatim>\<open>undefined\<close>, and reading
  \<^verbatim>\<open>clientX\<close> from it throws before the instance is changed.
\<close>

definition on_touchstart :: "pointer list \<Rightarrow> rect \<Rightarrow> real \<Rightarrow> profile_dots \<Rightarrow> error + profile_dots" where
  "on_touchstart touches r now s =
     (case touches of
        [] \<Rightarrow> Inl TypeError
      | touch # _ \<Rightarrow>
          Inr (s\<lparr>ripples := ripples s @
                 [\<lparr>ripple_x = clientX touch - rect_left r, ripple_y = clientY touch - rect_top r,
                   ripple_time = now, intensity = 2\<rparr>]\<rparr>))"

subsection \<open>Influence functions\<close>

definition getMouseInfluence :: "profile_dots \<Rightarrow> real \<Rightarrow> real \<Rightarrow> real" where
  "getMouseInfluence s x y =
     (let dx = x - mouse_x (mouse s);
          dy = y - mouse_y (mouse s);
          distance = sqrt (dx * dx + dy * dy);
          maxDistance = 100
      in max 0 (1 - distance / maxDistance))"

text \<open>The body of the \<^verbatim>\<open>forEach\<close> of \<^verbatim>\<open>getRippleInfluence\<close>, as a function of the running total.\<close>

definition ripple_step :: "real \<Rightarrow> real \<Rightarrow> real \<Rightarrow> ripple \<Rightarrow> real \<Rightarrow> real" where
  "ripple_step x y currentTime r totalInfluence =
     (let age = currentTime - ripple_time r;
          maxAge = 2000
      in if age < maxAge
         then (let dx = x - ripple_x r;
                   dy = y - ripple_y r;
                   distance = sqrt (dx * dx + dy * dy);
                   progress = age / maxAge;
                   rippleRadius = progress * 150;
                   rippleWidth = 40
               in if \<bar>distance - rippleRadius\<bar> < rippleWidth
                  then (let rippleStrength = (1 - progress) * intensity r;
                            proximity = 1 - \<bar>distance - rippleRadius\<bar> / rippleWidth
                        in totalInfluence + rippleStrength * proximity)
                  else totalInfluence)
         else totalInfluence)"

definition getRippleInfluence :: "profile_dots \<Rightarrow> real \<Rightarrow> real \<Rightarrow> real \<Rightarrow> real" where
  "getRippleInfluence s x y currentTime =
     min (fold (ripple_step x y currentTime) (ripples s) 0) 2"

subsection \<open>The frame callback\<close>

text \<open>The body of the \<^verbatim>\<open>forEach\<close> over the dots: the dot as it is left, and what is drawn.\<close>

definition drawDot :: "profile_dots \<Rightarrow> real \<Rightarrow> dot \<Rightarrow> dot \<times> effect list" where
  "drawDot s currentTime d =
     (let mouseInf = getMouseInfluence s (originalX d) (originalY d);
          rippleInf = getRippleInfluence s (originalX d) (originalY d) currentTime;
          totalInf = mouseInf + rippleInf;
          d1 = d\<lparr>dot_x := originalX d\<rparr>;
          d2 = d1\<lparr>dot_y := originalY d1\<rparr>;
          baseSize = 1.5;
          size = baseSize + totalInf * 3 + sin (time s + phase d2) * 0.5;
          opacity = max 0.3 (0.6 + totalInf * 0.4 + \<bar>sin (time s * 0.5 + phase d2)\<bar> * 0.1)
      in (d2, [BeginPath, Arc (dot_x d2) (dot_y d2) (max 0 size) 0 (pi * 2),
               FillStyle (dotColor s) opacity, Fill]))"

definition drawWave :: "real \<Rightarrow> ripple \<Rightarrow> effect list" where
  "drawWave currentTime r =
     (let age = currentTime - ripple_time r;
          maxAge = 2000
      in if age < maxAge
         then (let progress = age / maxAge;
                   radius = progress * 150;
                   alpha = (1 - progress) * 0.3 * intensity r
               in [BeginPath, StrokeStyle alpha, LineWidth 1,
                   Arc (ripple_x r) (ripple_y r) radius 0 (pi * 2), Stroke])
         else [])"

text \<open>
  \<open>animate_mounted\<close> is \<^verbatim>\<open>animate\<close> past its guard. \<open>currentTime\<close> is the result of
  \<^verbatim>\<open>Date.now()\<close>, \<open>handle\<close> the result of \<^verbatim>\<open>requestAnimationFrame\<close>.
\<close>

definition animate_mounted :: "real \<Rightarrow> nat \<Rightarrow> profile_dots \<Rightarrow> profile_dots \<times> effect list" where
  "animate_mounted currentTime handle s =
     (let s1 = s\<lparr>time := time s + animationSpeed s\<rparr>;
          width = real_of_int (canvas_width s1) / dpr s1;
          height = real_of_int (canvas_height s1) / dpr s1;
          drawn = map (drawDot s1 currentTime) (dots s1);
          s2 = s1\<lparr>dots := map fst drawn\<rparr>;
          waves = (if \<not> removeWaveLine s2
                   then concat (map (drawWave currentTime) (ripples s2)) else [])
      in (s2\<lparr>animationFrameId := Some handle\<rparr>,
          ClearRect 0 0 width height # concat (map snd drawn) @ waves @ [RequestAnimationFrame]))"

fun animate :: "real \<Rightarrow> nat \<Rightarrow> ProfileDots \<Rightarrow> ProfileDots \<times> effect list" where
  "animate currentTime handle Unmounted = (Unmounted, [])"
| "animate currentTime handle (Mounted s) =
     (case animate_mounted currentTime handle s of (s', es) \<Rightarrow> (Mounted s', es))"

subsection \<open>Construction\<close>

text \<open>
  An option the caller leaves out is \<open>None\<close>. \<^verbatim>\<open>a || b\<close> is \<open>b\<close> when \<open>a\<close> is
  missing, zero or the empty string.
\<close>

record options =
  opt_backgroundColor :: "string option"
  opt_dotColor :: "string option"
  opt_gridSpacing :: "real option"
  opt_animationSpeed :: "real option"
  opt_removeWaveLine :: "bool option"

definition or_number :: "real option \<Rightarrow> real \<Rightarrow> real" where
  "or_number a b = (case a of None \<Rightarrow> b | Some v \<Rightarrow> if v = 0 then b else v)"

definition or_string :: "string option \<Rightarrow> string \<Rightarrow> string" where
  "or_string a b = (case a of None \<Rightarrow> b | Some v \<Rightarrow> if v = [] then b else v)"

text \<open>
  The host at construction. \<open>getElementById\<close> gives, for the canvas with that identifier, the
  \<^verbatim>\<open>width\<close> and \<^verbatim>\<open>height\<close> attributes it has and the bounding rectangle of its parent.
\<close>

record canvas_element =
  attr_width :: int
  attr_height :: int
  parent_rect :: rect

record host =
  getElementById :: "string \<Rightarrow> canvas_element option"
  devicePixelRatio :: "real option"
  host_random :: "nat \<Rightarrow> real"
  host_now :: real
  host_handle :: nat

definition initEvents :: "effect list" where
  "initEvents =
     [AddEventListener Window ''resize'', AddEventListener Document ''mousemove'',
      AddEventListener Canvas ''mousedown'', AddEventListener Canvas ''mouseup'',
      AddEventListener Canvas ''touchstart'']"

definition init :: "host \<Rightarrow> canvas_element \<Rightarrow> profile_dots \<Rightarrow> (profile_dots \<times> effect list) option" where
  "init h c s =
     (case resize (parent_rect c) (host_random h) s of
        None \<Rightarrow> None
      | Some (s1, es1) \<Rightarrow>
          (case animate_mounted (host_now h) (host_handle h) s1 of
             (s2, es2) \<Rightarrow> Some (s2, es1 @ initEvents @ es2)))"

definition constructor :: "host \<Rightarrow> string \<Rightarrow> options \<Rightarrow> (ProfileDots \<times> effect list) option" where
  "constructor h canvasId opts =
     (case getElementById h canvasId of
        None \<Rightarrow> Some (Unmounted, [])
      | Some c \<Rightarrow>
          map_option (\<lambda>(s, es). (Mounted s, es))
            (init h c
               \<lparr>canvas_width = attr_width c,
                canvas_height = attr_height c,
                backgroundColor = or_string (opt_backgroundColor opts) ''transparent'',
                dotColor = or_string (opt_dotColor opts) ''#FFD700'',
                gridSpacing = or_number (opt_gridSpacing opts) 20,
                animationSpeed = or_number (opt_animationSpeed opts) 0.05,
                removeWaveLine = (case opt_removeWaveLine opts of None \<Rightarrow> False | Some b \<Rightarrow> b),
                time = 0,
                mouse = \<lparr>mouse_x = 0, mouse_y = 0, isDown = False\<rparr>,
                ripples = [],
                dots = [],
                dpr = or_number (devicePixelRatio h) 1,
                animationFrameId = None\<rparr>))"

subsection \<open>The instance over time\<close>

text \<open>
  Once constructed, the instance changes only when the host runs one of the five listeners
  or the frame callback. An exception of a listener reaches the host's event loop, which
  reports it and goes on with the instance as the listener left it; a listener that does not
  return leaves no later state.
\<close>

datatype event =
    Resized rect "nat \<Rightarrow> real"
  | MouseMove pointer rect
  | MouseDown pointer rect real real
  | MouseUp
  | TouchStart "pointer list" rect real
  | Frame real nat

fun dispatch :: "event \<Rightarrow> profile_dots \<Rightarrow> profile_dots option" where
  "dispatch (Resized parent random) s = map_option fst (resize parent random s)"
| "dispatch (MouseMove e r) s = Some (on_mousemove e r s)"
| "dispatch (MouseDown e r pushed now) s = Some (on_mousedown e r pushed now s)"
| "dispatch MouseUp s = Some (on_mouseup s)"
| "dispatch (TouchStart touches r now) s =
     (case on_touchstart touches r now s of Inl _ \<Rightarrow> Some s | Inr s' \<Rightarrow> Some s')"
| "dispatch (Frame currentTime handle) s = Some (fst (animate_mounted currentTime handle s))"

inductive reachable :: "profile_dots \<Rightarrow> bool" where
  constructed: "constructor h canvasId opts = Some (Mounted s, es) \<Longrightarrow> reachable s"
| dispatched: "reachable s \<Longrightarrow> dispatch ev s = Some s' \<Longrightarrow> reachable s'"

subsection \<open>The specification's formulas\<close>

text \<open>The dot at a grid position, and the number of grid lines that fit an extent.\<close>

definition grid_dot :: "real \<Rightarrow> real \<Rightarrow> real \<Rightarrow> dot" where
  "grid_dot x y p = \<lparr>dot_x = x, dot_y = y, originalX = x, originalY = y, phase = p\<rparr>"

definition grid_count :: "real \<Rightarrow> real \<Rightarrow> nat" where
  "grid_count extent spacing = nat \<lceil>extent / spacing - 1 / 2\<rceil>"

definition grid_row :: "real \<Rightarrow> (nat \<Rightarrow> real) \<Rightarrow> real \<Rightarrow> real \<Rightarrow> nat \<Rightarrow> dot list" where
  "grid_row S rnd h x k =
     map (\<lambda>j. grid_dot x (S / 2 + real j * S) (rnd (k + j) * pi * 2)) [0..<grid_count h S]"

definition grid :: "real \<Rightarrow> (nat \<Rightarrow> real) \<Rightarrow> real \<Rightarrow> real \<Rightarrow> dot list" where
  "grid S rnd w h =
     concat (map (\<lambda>i. grid_row S rnd h (S / 2 + real i * S) (i * grid_count h S))
               [0..<grid_count w S])"

text \<open>
  The counters of a grid loop that starts at \<open>y\<close> and stops at \<open>h\<close> are exact when every
  value \<open>y + j * S\<close> the loop can reach is a double: then no addition rounds.
\<close>

definition exact_steps :: "real \<Rightarrow> real \<Rightarrow> real \<Rightarrow> bool" where
  "exact_steps S y h \<longleftrightarrow>
     (\<forall>j::nat. y + real j * S < h + S \<longrightarrow> round_double (y + real j * S) = y + real j * S)"

text \<open>
  The contribution of one ripple as the specification words it: only a live ripple whose
  ring is within 40 of the point contributes, by
  \<open>(1 - progress) * intensity * (1 - |distance - currentRadius| / 40)\<close>. The distance is
  the Euclidean metric of the plane, taken from the complex numbers.
\<close>

definition ring_contribution :: "real \<Rightarrow> real \<Rightarrow> real \<Rightarrow> ripple \<Rightarrow> real" where
  "ring_contribution x y now r =
     (let age = now - ripple_time r;
          progress = age / 2000;
          currentRadius = progress * 150;
          distance = dist (Complex x y) (Complex (ripple_x r) (ripple_y r))
      in if age < 2000 \<and> \<bar>distance - currentRadius\<bar> < 40
         then (1 - progress) * intensity r * (1 - \<bar>distance - currentRadius\<bar> / 40)
         else 0)"

text \<open>What a frame paints for one dot, from the total influence on it.\<close>

definition total_influence :: "profile_dots \<Rightarrow> real \<Rightarrow> dot \<Rightarrow> real" where
  "total_influence s now d =
     getMouseInfluence s (originalX d) (originalY d)
       + getRippleInfluence s (originalX d) (originalY d) now"

definition painted_radius :: "profile_dots \<Rightarrow> real \<Rightarrow> dot \<Rightarrow> real" where
  "painted_radius s now d =
     max 0 (1.5 + total_influence s now d * 3
              + sin (time s + animationSpeed s + phase d) * 0.5)"

definition painted_opacity :: "profile_dots \<Rightarrow> real \<Rightarrow> dot \<Rightarrow> real" where
  "painted_opacity s now d =
     max 0.3 (0.6 + total_influence s now d * 0.4
                + \<bar>sin ((time s + animationSpeed s) * 0.5 + phase d)\<bar> * 0.1)"

subsection \<open>Concrete instances\<close>

text \<open>
  \<open>random_zero\<close> is a \<^verbatim>\<open>Math.random\<close> that returns 0 at every call. \<open>blank\<close> has the
  fields as the constructor sets them before \<^verbatim>\<open>init\<close>, with no option given, on a
  canvas of 300 by 150 and a device pixel ratio of 1. \<open>demo_host\<close> is a page whose canvas
  \<^verbatim>\<open>profile-canvas\<close> sits in a parent of 20 by 20, and \<open>demo\<close> the instance constructed
  there with no option given: one dot, at (10, 10).
\<close>

definition random_zero :: "nat \<Rightarrow> real" where
  "random_zero k = 0"

definition blank :: profile_dots where
  "blank =
     \<lparr>canvas_width = 300, canvas_height = 150,
      backgroundColor = ''transparent'', dotColor = ''#FFD700'',
      gridSpacing = 20, animationSpeed = 0.05, removeWaveLine = False,
      time = 0, mouse = \<lparr>mouse_x = 0, mouse_y = 0, isDown = False\<rparr>,
      ripples = [], dots = [], dpr = 1, animationFrameId = None\<rparr>"

definition no_options :: options where
  "no_options =
     \<lparr>opt_backgroundColor = None, opt_dotColor = None, opt_gridSpacing = None,
      opt_animationSpeed = None, opt_removeWaveLine = None\<rparr>"

definition demo_canvas :: canvas_element where
  "demo_canvas =
     \<lparr>attr_width = 300, attr_height = 150,
      parent_rect = \<lparr>rect_left = 0, rect_top = 0, rect_width = 20, rect_height = 20\<rparr>\<rparr>"

definition demo_host :: host where
  "demo_host =
     \<lparr>getElementById = (\<lambda>i. if i = ''profile-canvas'' then Some demo_canvas else None),
      devicePixelRatio = None, host_random = random_zero, host_now = 0, host_handle = 1\<rparr>"

definition demo :: profile_dots where
  "demo = blank\<lparr>canvas_width := 20, canvas_height := 20, time := 0.05,
                dots := [grid_dot 10 10 0], animationFrameId := Some 1\<rparr>"

definition origin :: rect where
  "origin = \<lparr>rect_left = 0, rect_top = 0, rect_width = 20, rect_height = 20\<rparr>"

definition at_dot :: pointer where
  "at_dot = \<lparr>clientX = 10, clientY = 10\<rparr>"

text \<open>
  \<open>pressed_twice\<close> is \<open>demo\<close> after two presses on its dot in the same millisecond;
  \<open>touched_twice\<close> is \<open>demo\<close> after a touch at time 0 and a touch at time 5000;
  \<open>hovered_press\<close> is \<open>demo\<close> after the pointer moved onto its dot and pressed there.
\<close>

definition pressed_twice :: profile_dots where
  "pressed_twice = on_mousedown at_dot origin 0 0 (on_mousedown at_dot origin 0 0 demo)"

definition touched_twice :: profile_dots where
  "touched_twice =
     demo\<lparr>ripples := [\<lparr>ripple_x = 10, ripple_y = 10, ripple_time = 0, intensity = 2\<rparr>,
                       \<lparr>ripple_x = 10, ripple_y = 10, ripple_time = 5000, intensity = 2\<rparr>]\<rparr>"

definition hovered_press :: profile_dots where
  "hovered_press = on_mousedown at_dot origin 0 0 (on_mousemove at_dot origin demo)"

text \<open>
  \<open>tenth\<close> is the double nearest to 0.1 and \<open>near_045\<close> the double nearest to 0.45.
\<close>

definition tenth :: real where
  "tenth = 3602879701896397 / 2 ^ 55"

definition near_045 :: real where
  "near_045 = 8106479329266893 / 2 ^ 54"

section \<open>Rounding to a double\<close>

lemma round_half_even_of_int: "round_half_even (of_int n) = n"
  by (simp add: round_half_even_def)

lemma round_double_exact:
  assumes "x / 2 powi (double_exponent x - 52) = of_int n"
  shows "round_double x = x"
proof (cases "x = 0")
  case True
  then show ?thesis by (simp add: round_double_def)
next
  case False
  have "of_int n * 2 powi (double_exponent x - 52) = (x::real)"
    using assms by (simp add: field_simps)
  then show ?thesis
    using False by (simp add: round_double_def assms round_half_even_of_int)
qed

lemma double_exponent_bounds:
  assumes "x \<noteq> 0" "\<bar>x\<bar> < 2 ^ 51"
  shows "- 1022 \<le> double_exponent x" "double_exponent x \<le> 50"
proof -
  show "- 1022 \<le> double_exponent x" by (simp add: double_exponent_def)
  have "log 2 \<bar>x\<bar> < 51"
    using assms by (simp add: log_less_iff)
  then have "\<lfloor>log 2 \<bar>x\<bar>\<rfloor> \<le> 50" by linarith
  then show "double_exponent x \<le> 50" by (simp add: double_exponent_def)
qed

lemma quarter_exact:
  assumes "x = of_int n / 4" "\<bar>x\<bar> < 2 ^ 51"
  shows "round_double x = x"
proof (cases "x = 0")
  case True
  then show ?thesis by (simp add: round_double_def)
next
  case False
  define e where "e = double_exponent x"
  define k where "k = nat (50 - e)"
  from double_exponent_bounds [OF False assms(2)] have e: "e - 52 = - int (k + 2)"
    by (simp add: e_def k_def)
  have "(2::real) powi (- int (k + 2)) = inverse (2 powi int (k + 2))"
    by (rule power_int_minus)
  also have "\<dots> = inverse (2 ^ (k + 2))"
    by (simp only: power_int_of_nat)
  also have "\<dots> = 1 / (4 * 2 ^ k)"
    by (simp add: field_simps)
  finally have p: "(2::real) powi (double_exponent x - 52) = 1 / (4 * 2 ^ k)"
    unfolding e e_def [symmetric] .
  have "x / 2 powi (double_exponent x - 52) = x * 4 * 2 ^ k"
    unfolding p by simp
  also have "\<dots> = of_int (n * 2 ^ k)"
    by (simp add: assms(1))
  finally show ?thesis by (rule round_double_exact)
qed

section \<open>The grid that the loops build\<close>

lemma ceiling_step:
  fixes h y S :: real
  assumes "0 < S" "nat \<lceil>(h - y) / S\<rceil> = Suc n"
  shows "y < h" "nat \<lceil>(h - (y + S)) / S\<rceil> = n"
proof -
  from assms(2) have pos: "0 < \<lceil>(h - y) / S\<rceil>" by linarith
  then have "0 < (h - y) / S" by linarith
  with assms(1) show "y < h" by (simp add: zero_less_divide_iff)
  have "(h - (y + S)) / S = (h - y) / S - 1" using assms(1) by (simp add: field_simps)
  then have "\<lceil>(h - (y + S)) / S\<rceil> = \<lceil>(h - y) / S\<rceil> - 1" by simp
  with assms(2) show "nat \<lceil>(h - (y + S)) / S\<rceil> = n" by linarith
qed

lemma ceiling_stop:
  fixes h y S :: real
  assumes "0 < S" "nat \<lceil>(h - y) / S\<rceil> = 0"
  shows "\<not> y < h"
proof
  assume "y < h"
  with assms(1) have "0 < (h - y) / S" by simp
  then have "0 < \<lceil>(h - y) / S\<rceil>" by linarith
  with assms(2) show False by simp
qed

lemma exact_steps_step:
  assumes "exact_steps S y h" "y < h"
  shows "round_double (y + S) = y + S" "exact_steps S (y + S) h"
proof -
  from assms(2) have "y + real 1 * S < h + S" by simp
  with assms(1) have "round_double (y + real 1 * S) = y + real 1 * S"
    unfolding exact_steps_def by blast
  then show "round_double (y + S) = y + S" by simp
  show "exact_steps S (y + S) h"
    unfolding exact_steps_def
  proof (intro allI impI)
    fix j :: nat
    assume "y + S + real j * S < h + S"
    then have "y + real (Suc j) * S < h + S" by (simp add: algebra_simps)
    with assms(1) have "round_double (y + real (Suc j) * S) = y + real (Suc j) * S"
      unfolding exact_steps_def by blast
    then show "round_double (y + S + real j * S) = y + S + real j * S"
      by (simp add: algebra_simps)
  qed
qed

lemma initDots_y_returns:
  assumes "0 < S"
  shows "exact_steps S y h \<Longrightarrow> initDots_y S rnd h x y acc =
      Some (acc @ map (\<lambda>j. grid_dot x (y + real j * S) (rnd (length acc + j) * pi * 2))
                    [0..<nat \<lceil>(h - y) / S\<rceil>])"
proof (induction "nat \<lceil>(h - y) / S\<rceil>" arbitrary: y acc)
  case 0
  then have "\<not> y < h" using ceiling_stop [OF assms] by simp
  then show ?case using 0 by (subst initDots_y.simps) simp
next
  case (Suc n)
  from Suc.hyps(2) have n: "nat \<lceil>(h - y) / S\<rceil> = Suc n" by simp
  note st = ceiling_step [OF assms n]
  note ex = exact_steps_step [OF Suc.prems st(1)]
  have "initDots_y S rnd h x y acc = initDots_y S rnd h x (y + S) (push_dot rnd x y acc)"
    using st(1) ex(1) by (subst initDots_y.simps) simp
  also have "\<dots> = Some (push_dot rnd x y acc @
       map (\<lambda>j. grid_dot x (y + S + real j * S) (rnd (length (push_dot rnd x y acc) + j) * pi * 2)) [0..<n])"
    using Suc.hyps(1) [of "y + S" "push_dot rnd x y acc"] st(2) ex(2) by simp
  also have "\<dots> = Some (acc @ map (\<lambda>j. grid_dot x (y + real j * S) (rnd (length acc + j) * pi * 2)) [0..<Suc n])"
    unfolding map_upt_Suc by (simp add: push_dot_def grid_dot_def algebra_simps)
  finally show ?case using n by simp
qed

lemma grid_count_eq: "0 < S \<Longrightarrow> nat \<lceil>(h - S / 2) / S\<rceil> = grid_count h S"
  by (simp add: grid_count_def diff_divide_distrib)

lemma length_grid_row: "length (grid_row S rnd h x k) = grid_count h S"
  by (simp add: grid_row_def)

lemma initDots_y_row:
  assumes "0 < S" "round_double (S / 2) = S / 2" "exact_steps S (S / 2) h"
  shows "initDots_y S rnd h x (round_double (S / 2)) acc
           = Some (acc @ grid_row S rnd h x (length acc))"
  using initDots_y_returns [OF assms(1) assms(3), of rnd x acc] grid_count_eq [OF assms(1), of h]
  by (simp add: grid_row_def assms(2))

lemma initDots_x_returns:
  assumes "0 < S" "round_double (S / 2) = S / 2" "exact_steps S (S / 2) h"
  shows "exact_steps S x w \<Longrightarrow> initDots_x S rnd w h x acc =
      Some (acc @ concat (map (\<lambda>i. grid_row S rnd h (x + real i * S)
                                     (length acc + i * grid_count h S))
                            [0..<nat \<lceil>(w - x) / S\<rceil>]))"
proof (induction "nat \<lceil>(w - x) / S\<rceil>" arbitrary: x acc)
  case 0
  then have "\<not> x < w" using ceiling_stop [OF assms(1)] by simp
  then show ?case using 0 by (subst initDots_x.simps) simp
next
  case (Suc n)
  from Suc.hyps(2) have n: "nat \<lceil>(w - x) / S\<rceil> = Suc n" by simp
  note st = ceiling_step [OF assms(1) n]
  note ex = exact_steps_step [OF Suc.prems st(1)]
  let ?acc = "acc @ grid_row S rnd h x (length acc)"
  have "initDots_x S rnd w h x acc = initDots_x S rnd w h (x + S) ?acc"
    using st(1) ex(1) by (subst initDots_x.simps) (simp add: initDots_y_row [OF assms])
  also have "\<dots> = Some (?acc @ concat (map (\<lambda>i. grid_row S rnd h (x + S + real i * S)
                                     (length ?acc + i * grid_count h S)) [0..<n]))"
    using Suc.hyps(1) [of "x + S" ?acc] st(2) ex(2) by simp
  also have "\<dots> = Some (acc @ concat (map (\<lambda>i. grid_row S rnd h (x + real i * S)
                                     (length acc + i * grid_count h S)) [0..<Suc n]))"
    unfolding map_upt_Suc by (simp add: length_grid_row algebra_simps)
  finally show ?case using n by simp
qed

lemma half_spacing_exact:
  assumes "S = real k / 2" "0 < k" "0 < h" "h + S \<le> 2 ^ 51"
  shows "round_double (S / 2) = S / 2" "exact_steps S (S / 2) h"
proof -
  have quarter: "round_double (S / 2 + real j * S) = S / 2 + real j * S"
    if "S / 2 + real j * S < h + S" for j :: nat
  proof (rule quarter_exact)
    show "S / 2 + real j * S = real_of_int (int ((2 * j + 1) * k)) / 4"
      by (simp add: assms(1) algebra_simps)
    have "0 \<le> S / 2 + real j * S" using assms(1) by simp
    with that assms(4) show "\<bar>S / 2 + real j * S\<bar> < 2 ^ 51" by simp
  qed
  have "S / 2 + real 0 * S < h + S" using assms(1,3) by simp
  from quarter [OF this] show "round_double (S / 2) = S / 2" by simp
  from quarter show "exact_steps S (S / 2) h" by (simp add: exact_steps_def)
qed

lemma initDots_x_grid:
  assumes "S = real k / 2" "0 < k" "0 < w" "w + S \<le> 2 ^ 51" "0 < h" "h + S \<le> 2 ^ 51"
  shows "initDots_x S rnd w h (round_double (S / 2)) [] = Some (grid S rnd w h)"
proof -
  have pos: "0 < S" using assms(1,2) by simp
  note xs = half_spacing_exact [OF assms(1,2,3,4)]
  note ys = half_spacing_exact [OF assms(1,2,5,6)]
  show ?thesis
    using initDots_x_returns [OF pos ys xs(2), of rnd "[]"] grid_count_eq [OF pos, of w]
    by (simp add: grid_def xs(1))
qed

lemma length_grid: "length (grid S rnd w h) = grid_count w S * grid_count h S"
  by (simp add: grid_def length_concat length_grid_row comp_def sum_list_triv)

lemma grid_count_iff:
  assumes "0 < S"
  shows "i < grid_count w S \<longleftrightarrow> S / 2 + real i * S < w"
proof -
  have "i < grid_count w S \<longleftrightarrow> int i < \<lceil>w / S - 1 / 2\<rceil>"
    unfolding grid_count_def by linarith
  also have "\<dots> \<longleftrightarrow> real i < w / S - 1 / 2"
    by (simp add: less_ceiling_iff)
  also have "\<dots> \<longleftrightarrow> S / 2 + real i * S < w"
    using assms by (simp add: field_simps)
  finally show ?thesis .
qed

lemma set_grid:
  "set (grid S rnd w h) =
     {grid_dot (S / 2 + real i * S) (S / 2 + real j * S) (rnd (i * grid_count h S + j) * pi * 2)
      | i j. i < grid_count w S \<and> j < grid_count h S}"
  by (auto simp: grid_def grid_row_def) blast

lemma grid_positions:
  assumes "0 < S"
  shows "(\<lambda>d. (dot_x d, dot_y d)) ` set (grid S rnd w h) =
     {(S / 2 + real i * S, S / 2 + real j * S) | i j.
        S / 2 + real i * S < w \<and> S / 2 + real j * S < h}"
    (is "?pos ` ?A = ?B")
proof (rule set_eqI, rule iffI)
  fix p
  assume "p \<in> ?pos ` ?A"
  then obtain d where d: "d \<in> ?A" and p: "p = ?pos d" by blast
  from d obtain i j where ij: "i < grid_count w S" "j < grid_count h S"
    and dd: "d = grid_dot (S / 2 + real i * S) (S / 2 + real j * S)
                   (rnd (i * grid_count h S + j) * pi * 2)"
    unfolding set_grid by blast
  have "p = (S / 2 + real i * S, S / 2 + real j * S)"
    unfolding p dd by (simp add: grid_dot_def)
  with ij show "p \<in> ?B"
    using grid_count_iff [OF assms] by blast
next
  fix p
  assume "p \<in> ?B"
  then obtain i j where p: "p = (S / 2 + real i * S, S / 2 + real j * S)"
    and ij: "S / 2 + real i * S < w" "S / 2 + real j * S < h" by blast
  let ?d = "grid_dot (S / 2 + real i * S) (S / 2 + real j * S)
              (rnd (i * grid_count h S + j) * pi * 2)"
  from ij have "i < grid_count w S" "j < grid_count h S"
    using grid_count_iff [OF assms] by blast+
  then have "?d \<in> ?A" unfolding set_grid by blast
  moreover have "p = ?pos ?d" unfolding p by (simp add: grid_dot_def)
  ultimately show "p \<in> ?pos ` ?A" by (rule rev_image_eqI)
qed

lemma grid_within:
  assumes "0 < S" "d \<in> set (grid S rnd w h)"
  shows "0 \<le> dot_x d \<and> dot_x d < w \<and> 0 \<le> dot_y d \<and> dot_y d < h
       \<and> originalX d = dot_x d \<and> originalY d = dot_y d \<and> (\<exists>k. phase d = rnd k * pi * 2)"
proof -
  from assms(2) obtain i j where ij: "i < grid_count w S" "j < grid_count h S"
    and d: "d = grid_dot (S / 2 + real i * S) (S / 2 + real j * S) (rnd (i * grid_count h S + j) * pi * 2)"
    unfolding set_grid by blast
  from ij have "S / 2 + real i * S < w" "S / 2 + real j * S < h"
    using grid_count_iff [OF assms(1)] by blast+
  moreover have "0 \<le> S / 2 + real i * S" "0 \<le> S / 2 + real j * S"
    using assms(1) by simp_all
  ultimately show ?thesis unfolding d by (auto simp: grid_dot_def)
qed

lemma positions_grid:
  "map (\<lambda>d. (dot_x d, dot_y d)) (grid S rnd w h) =
     concat (map (\<lambda>i. map (\<lambda>j. (S / 2 + real i * S, S / 2 + real j * S)) [0..<grid_count h S])
               [0..<grid_count w S])"
  by (simp add: grid_def grid_row_def map_concat comp_def grid_dot_def)

lemma upt_5: "[0..<5] = [0, 1, 2, 3, 4]"
  by (simp add: upt_rec)

lemma grid_count_100_20: "grid_count 100 20 = 5"
  by (simp add: grid_count_def)

lemma grid_count_50_20: "grid_count 50 20 = 2"
  by (simp add: grid_count_def)

lemma positions_100_20:
  "map (\<lambda>d. (dot_x d, dot_y d)) (grid 20 rnd 100 100) =
     [(10, 10), (10, 30), (10, 50), (10, 70), (10, 90),
      (30, 10), (30, 30), (30, 50), (30, 70), (30, 90),
      (50, 10), (50, 30), (50, 50), (50, 70), (50, 90),
      (70, 10), (70, 30), (70, 50), (70, 70), (70, 90),
      (90, 10), (90, 30), (90, 50), (90, 70), (90, 90)]"
  unfolding positions_grid grid_count_100_20 upt_5 by simp

text \<open>
  C1 (amended). For every spacing \<open>S\<close> that is a positive multiple of 0.5 and every surface
  of width \<open>W > 0\<close> and height \<open>H > 0\<close> with \<open>W + S\<close> and \<open>H + S\<close> at most \<open>2 ^ 51\<close>
  (so that no addition of the loops rounds), \<^verbatim>\<open>initDots(W, H)\<close> returns, and the grid it
  leaves has exactly \<open>ceil(W/S - 1/2) * ceil(H/S - 1/2)\<close> dots: the positions are the points
  \<open>(S/2 + i*S, S/2 + j*S)\<close> with both coordinates below \<open>W\<close> and \<open>H\<close>, every dot lies in
  \<open>[0,W) \<times> [0,H)\<close>, and a surface of 100 by 100 with spacing 20 gets the 25 points
  (10,10), (10,30), ..., (90,90).
\<close>

theorem initDots_grid:
  assumes "gridSpacing s = real k / 2" "0 < k"
    and "0 < W" "W + gridSpacing s \<le> 2 ^ 51"
    and "0 < H" "H + gridSpacing s \<le> 2 ^ 51"
  shows "\<exists>ds. initDots rnd W H s = Some (s\<lparr>dots := ds\<rparr>)
     \<and> length ds = nat \<lceil>W / gridSpacing s - 1 / 2\<rceil> * nat \<lceil>H / gridSpacing s - 1 / 2\<rceil>
     \<and> (\<lambda>d. (dot_x d, dot_y d)) ` set ds =
         {(gridSpacing s / 2 + real i * gridSpacing s, gridSpacing s / 2 + real j * gridSpacing s)
          | i j. gridSpacing s / 2 + real i * gridSpacing s < W
               \<and> gridSpacing s / 2 + real j * gridSpacing s < H}
     \<and> (\<forall>d \<in> set ds. 0 \<le> dot_x d \<and> dot_x d < W \<and> 0 \<le> dot_y d \<and> dot_y d < H)
     \<and> (gridSpacing s = 20 \<and> W = 100 \<and> H = 100 \<longrightarrow>
          map (\<lambda>d. (dot_x d, dot_y d)) ds =
            [(10, 10), (10, 30), (10, 50), (10, 70), (10, 90),
             (30, 10), (30, 30), (30, 50), (30, 70), (30, 90),
             (50, 10), (50, 30), (50, 50), (50, 70), (50, 90),
             (70, 10), (70, 30), (70, 50), (70, 70), (70, 90),
             (90, 10), (90, 30), (90, 50), (90, 70), (90, 90)])"
proof (intro exI conjI)
  have pos: "0 < gridSpacing s" using assms(1,2) by simp
  show "initDots rnd W H s = Some (s\<lparr>dots := grid (gridSpacing s) rnd W H\<rparr>)"
    by (simp add: initDots_def initDots_x_grid [OF assms])
  show "length (grid (gridSpacing s) rnd W H) =
      nat \<lceil>W / gridSpacing s - 1 / 2\<rceil> * nat \<lceil>H / gridSpacing s - 1 / 2\<rceil>"
    by (simp add: length_grid grid_count_def)
  show "(\<lambda>d. (dot_x d, dot_y d)) ` set (grid (gridSpacing s) rnd W H) =
         {(gridSpacing s / 2 + real i * gridSpacing s, gridSpacing s / 2 + real j * gridSpacing s)
          | i j. gridSpacing s / 2 + real i * gridSpacing s < W
               \<and> gridSpacing s / 2 + real j * gridSpacing s < H}"
    by (rule grid_positions [OF pos])
  show "\<forall>d \<in> set (grid (gridSpacing s) rnd W H).
          0 \<le> dot_x d \<and> dot_x d < W \<and> 0 \<le> dot_y d \<and> dot_y d < H"
    using grid_within [OF pos] by blast
  show "gridSpacing s = 20 \<and> W = 100 \<and> H = 100 \<longrightarrow>
          map (\<lambda>d. (dot_x d, dot_y d)) (grid (gridSpacing s) rnd W H) =
            [(10, 10), (10, 30), (10, 50), (10, 70), (10, 90),
             (30, 10), (30, 30), (30, 50), (30, 70), (30, 90),
             (50, 10), (50, 30), (50, 50), (50, 70), (50, 90),
             (70, 10), (70, 30), (70, 50), (70, 70), (70, 90),
             (90, 10), (90, 30), (90, 50), (90, 70), (90, 90)]"
    using positions_100_20 by simp
qed

theorem initDots_grid_witness:
  "gridSpacing blank = real 40 / 2 \<and> (0 :: nat) < 40
   \<and> (0 :: real) < 100 \<and> 100 + gridSpacing blank \<le> 2 ^ 51 \<and>
   map_option (map (\<lambda>d. (dot_x d, dot_y d)) \<circ> dots) (initDots random_zero 100 100 blank) =
     Some [(10, 10), (10, 30), (10, 50), (10, 70), (10, 90),
           (30, 10), (30, 30), (30, 50), (30, 70), (30, 90),
           (50, 10), (50, 30), (50, 50), (50, 70), (50, 90),
           (70, 10), (70, 30), (70, 50), (70, 70), (70, 90),
           (90, 10), (90, 30), (90, 50), (90, 70), (90, 90)]"
proof -
  have sp: "gridSpacing blank = 20" by (simp add: blank_def)
  have h: "gridSpacing blank = real 40 / 2" "(0 :: nat) < 40"
    "(0 :: real) < 100" "100 + gridSpacing blank \<le> 2 ^ 51"
    by (simp_all add: sp)
  from initDots_grid [OF h(1) h(2) h(3) h(4) h(3) h(4), of random_zero] sp
  show ?thesis using h by auto
qed

lemma initDots_x_grid_20:
  assumes "0 < w" "w \<le> 1000" "0 < h" "h \<le> 1000"
  shows "initDots_x 20 rnd w h (round_double (20 / 2)) [] = Some (grid 20 rnd w h)"
proof -
  have k: "(20 :: real) = real 40 / 2" "(0 :: nat) < 40" by simp_all
  have b: "w + 20 \<le> 2 ^ 51" "h + 20 \<le> 2 ^ 51" using assms by simp_all
  show ?thesis by (rule initDots_x_grid [OF k assms(1) b(1) assms(3) b(2)])
qed

text \<open>
  The count \<open>ceil(W/S) * ceil(H/S)\<close> is not what the loops produce: on a surface of 50 by
  50 with spacing 20 the columns are at 10 and 30 (50 is not below 50), so there are 4 dots,
  where the formula gives 9.
\<close>

theorem initDots_count_counterexample:
  "map_option (length \<circ> dots) (initDots random_zero 50 50 blank) = Some 4 \<and>
   nat (\<lceil>(50 :: real) / gridSpacing blank\<rceil> * \<lceil>(50 :: real) / gridSpacing blank\<rceil>) = 9"
proof -
  have sp: "gridSpacing blank = 20" by (simp add: blank_def)
  have "initDots random_zero 50 50 blank = Some (blank\<lparr>dots := grid 20 random_zero 50 50\<rparr>)"
    using initDots_x_grid_20 [of 50 50 random_zero] by (simp add: initDots_def sp)
  moreover have "length (grid 20 random_zero 50 50) = 4"
    by (simp add: length_grid grid_count_50_20)
  ultimately show ?thesis by (simp add: sp)
qed

subsection \<open>Where the additions round\<close>

text \<open>
  Without the restriction on the spacing the count can be one more than
  \<open>ceil(W/S - 1/2)\<close>: with the spacing \<open>tenth\<close> and the width \<open>near_045\<close> the fifth
  counter is rounded to 0.44999999999999996, which is below the width, so the loop builds
  five columns where the formula gives four.
\<close>

lemma round_double_at:
  assumes "2 powi e \<le> \<bar>x\<bar>" "\<bar>x\<bar> < 2 powi (e + 1)" "- 1022 \<le> e"
  shows "round_double x = of_int (round_half_even (x / 2 powi (e - 52))) * 2 powi (e - 52)"
proof -
  have pos: "0 < \<bar>x\<bar>"
    using assms(1) by (rule less_le_trans [rotated]) simp
  have lo: "(2::real) powr real_of_int e = 2 powi e"
    by (simp add: powr_real_of_int')
  have hi: "(2::real) powr (real_of_int e + 1) = 2 powi (e + 1)"
    using powr_real_of_int' [of 2 "e + 1"] by simp
  have "\<lfloor>log 2 \<bar>x\<bar>\<rfloor> = e"
    using assms(1,2) pos by (simp add: floor_log_eq_powr_iff lo hi)
  then have "double_exponent x = e"
    using assms(3) by (simp add: double_exponent_def)
  with pos show ?thesis by (simp add: round_double_def)
qed

lemma tenth_step_0: "round_double (tenth / 2) = 3602879701896397 / 2 ^ 56"
  by (subst round_double_at [where e = "- 5"]) (simp_all add: tenth_def round_half_even_def)

lemma tenth_step_1:
  "round_double (3602879701896397 / 2 ^ 56 + tenth) = 1351079888211149 / 2 ^ 53"
  by (subst round_double_at [where e = "- 3"]) (simp_all add: tenth_def round_half_even_def)

lemma tenth_step_2: "round_double (1351079888211149 / 2 ^ 53 + tenth) = 1 / 4"
  by (subst round_double_at [where e = "- 2"]) (simp_all add: tenth_def round_half_even_def)

lemma tenth_step_3: "round_double (1 / 4 + tenth) = 3152519739159347 / 2 ^ 53"
  by (subst round_double_at [where e = "- 2"]) (simp_all add: tenth_def round_half_even_def)

lemma tenth_step_4:
  "round_double (3152519739159347 / 2 ^ 53 + tenth) = 2026619832316723 / 2 ^ 52"
  by (subst round_double_at [where e = "- 2"]) (simp_all add: tenth_def round_half_even_def)

lemma tenth_step_5:
  "round_double (2026619832316723 / 2 ^ 52 + tenth) = 4953959590107545 / 2 ^ 53"
  by (subst round_double_at [where e = "- 1"]) (simp_all add: tenth_def round_half_even_def)

lemma length_push_dot: "length (push_dot rnd x y acc) = Suc (length acc)"
  by (simp add: push_dot_def)

lemma tenth_row:
  "initDots_y tenth rnd tenth x (round_double (tenth / 2)) acc
     = Some (push_dot rnd x (3602879701896397 / 2 ^ 56) acc)"
proof -
  have c0: "(3602879701896397 / 2 ^ 56 :: real) < tenth" by (simp add: tenth_def)
  have c1: "\<not> (1351079888211149 / 2 ^ 53 :: real) < tenth" by (simp add: tenth_def)
  have "initDots_y tenth rnd tenth x (3602879701896397 / 2 ^ 56) acc
      = initDots_y tenth rnd tenth x (1351079888211149 / 2 ^ 53)
          (push_dot rnd x (3602879701896397 / 2 ^ 56) acc)"
    by (subst initDots_y.simps) (simp only: c0 if_True tenth_step_1)
  also have "\<dots> = Some (push_dot rnd x (3602879701896397 / 2 ^ 56) acc)"
    by (subst initDots_y.simps) (simp only: c1 if_False)
  finally show ?thesis by (simp only: tenth_step_0)
qed

lemma tenth_column:
  assumes "x < near_045"
  shows "initDots_x tenth rnd near_045 tenth x acc
     = initDots_x tenth rnd near_045 tenth (round_double (x + tenth))
         (push_dot rnd x (3602879701896397 / 2 ^ 56) acc)"
  by (subst initDots_x.simps) (simp only: assms if_True tenth_row Option.bind.simps)

lemma tenth_columns:
  "map_option length (initDots_x tenth rnd near_045 tenth (round_double (tenth / 2)) []) = Some 5"
proof -
  have c: "(3602879701896397 / 2 ^ 56 :: real) < near_045"
    "(1351079888211149 / 2 ^ 53 :: real) < near_045"
    "(1 / 4 :: real) < near_045"
    "(3152519739159347 / 2 ^ 53 :: real) < near_045"
    "(2026619832316723 / 2 ^ 52 :: real) < near_045"
    "\<not> (4953959590107545 / 2 ^ 53 :: real) < near_045"
    by (simp_all add: near_045_def)
  have stop: "initDots_x tenth rnd near_045 tenth (4953959590107545 / 2 ^ 53) acc = Some acc" for acc
    by (subst initDots_x.simps) (simp only: c(6) if_False)
  have "\<exists>acc. initDots_x tenth rnd near_045 tenth (round_double (tenth / 2)) [] = Some acc
      \<and> length acc = 5"
    unfolding tenth_step_0
    unfolding tenth_column [OF c(1)] tenth_step_1
    unfolding tenth_column [OF c(2)] tenth_step_2
    unfolding tenth_column [OF c(3)] tenth_step_3
    unfolding tenth_column [OF c(4)] tenth_step_4
    unfolding tenth_column [OF c(5)] tenth_step_5
    unfolding stop
    by (simp add: length_push_dot)
  then show ?thesis by auto
qed

lemma initDots_tenth:
  "map_option (length \<circ> dots) (initDots rnd near_045 tenth (blank\<lparr>gridSpacing := tenth\<rparr>))
     = Some 5"
  using tenth_columns [of rnd] by (auto simp: initDots_def)

lemma tenth_formula: "nat \<lceil>near_045 / tenth - 1 / 2\<rceil> * nat \<lceil>tenth / tenth - 1 / 2\<rceil> = 4"
proof -
  have "\<lceil>near_045 / tenth - 1 / 2\<rceil> = 4"
    by (simp add: near_045_def tenth_def ceiling_eq_iff)
  moreover have "\<lceil>tenth / tenth - 1 / 2\<rceil> = 1"
    by (simp add: tenth_def ceiling_eq_iff)
  ultimately show ?thesis by simp
qed

section \<open>Ripple influence\<close>

lemma dist_plane:
  "dist (Complex x y) (Complex a b) = sqrt ((x - a) * (x - a) + (y - b) * (y - b))"
  by (simp add: dist_norm cmod_def power2_eq_square)

lemma ripple_step_unfold:
  "ripple_step x y t r acc =
     (if t - ripple_time r < 2000
      then if \<bar>sqrt ((x - ripple_x r) * (x - ripple_x r) + (y - ripple_y r) * (y - ripple_y r))
               - (t - ripple_time r) / 2000 * 150\<bar> < 40
           then acc + (1 - (t - ripple_time r) / 2000) * intensity r *
                  (1 - \<bar>sqrt ((x - ripple_x r) * (x - ripple_x r) + (y - ripple_y r) * (y - ripple_y r))
                         - (t - ripple_time r) / 2000 * 150\<bar> / 40)
           else acc
      else acc)"
  unfolding ripple_step_def Let_def ..

lemma ring_contribution_unfold:
  "ring_contribution x y t r =
     (if t - ripple_time r < 2000
         \<and> \<bar>sqrt ((x - ripple_x r) * (x - ripple_x r) + (y - ripple_y r) * (y - ripple_y r))
               - (t - ripple_time r) / 2000 * 150\<bar> < 40
      then (1 - (t - ripple_time r) / 2000) * intensity r *
             (1 - \<bar>sqrt ((x - ripple_x r) * (x - ripple_x r) + (y - ripple_y r) * (y - ripple_y r))
                    - (t - ripple_time r) / 2000 * 150\<bar> / 40)
      else 0)"
  unfolding ring_contribution_def Let_def dist_plane ..

lemma ripple_step_contribution:
  "ripple_step x y t r acc = acc + ring_contribution x y t r"
proof -
  define age where "age = t - ripple_time r"
  define gap where "gap = \<bar>sqrt ((x - ripple_x r) * (x - ripple_x r) + (y - ripple_y r) * (y - ripple_y r))
               - (t - ripple_time r) / 2000 * 150\<bar>"
  have "ripple_step x y t r acc =
      (if age < 2000 then if gap < 40 then acc + (1 - age / 2000) * intensity r * (1 - gap / 40)
                          else acc else acc)"
    unfolding ripple_step_unfold age_def gap_def ..
  moreover have "ring_contribution x y t r =
      (if age < 2000 \<and> gap < 40 then (1 - age / 2000) * intensity r * (1 - gap / 40) else 0)"
    unfolding ring_contribution_unfold age_def gap_def ..
  ultimately show ?thesis by simp
qed

lemma fold_ripple_step:
  "fold (ripple_step x y t) rs acc = acc + sum_list (map (ring_contribution x y t) rs)"
  by (induction rs arbitrary: acc) (simp_all add: ripple_step_contribution)

lemma getRippleInfluence_sum:
  "getRippleInfluence s x y t = min (sum_list (map (ring_contribution x y t) (ripples s))) 2"
  by (simp add: getRippleInfluence_def fold_ripple_step)

lemma ring_contribution_expired:
  "ripple_time r + 2000 \<le> t \<Longrightarrow> ring_contribution x y t r = 0"
  by (simp add: ring_contribution_def)

lemma ring_contribution_nonneg:
  assumes "0 \<le> intensity r"
  shows "0 \<le> ring_contribution x y t r"
proof -
  define age where "age = t - ripple_time r"
  define gap where "gap = \<bar>sqrt ((x - ripple_x r) * (x - ripple_x r) + (y - ripple_y r) * (y - ripple_y r))
               - (t - ripple_time r) / 2000 * 150\<bar>"
  have eq: "ring_contribution x y t r =
      (if age < 2000 \<and> gap < 40 then (1 - age / 2000) * intensity r * (1 - gap / 40) else 0)"
    unfolding ring_contribution_unfold age_def gap_def ..
  show ?thesis
  proof (cases "age < 2000 \<and> gap < 40")
    case True
    then have "0 \<le> 1 - age / 2000" "0 \<le> 1 - gap / 40" by simp_all
    with assms have "0 \<le> (1 - age / 2000) * intensity r * (1 - gap / 40)" by simp
    with True show ?thesis unfolding eq by simp
  next
    case False
    then show ?thesis unfolding eq by auto
  qed
qed

lemma sum_contributions_nonneg:
  "\<forall>r \<in> set rs. 0 \<le> intensity r \<Longrightarrow> 0 \<le> sum_list (map (ring_contribution x y t) rs)"
  by (rule sum_list_nonneg) (auto simp: ring_contribution_nonneg)

lemma sum_contributions_live:
  "sum_list (map (ring_contribution x y t) (filter (\<lambda>r. t - ripple_time r < 2000) rs))
     = sum_list (map (ring_contribution x y t) rs)"
  by (induction rs) (simp_all add: ring_contribution_expired)

text \<open>
  C2. A ripple created at \<open>t0\<close> and queried at \<open>t \<ge> t0 + 2000\<close> contributes nothing to
  \<^verbatim>\<open>getRippleInfluence\<close>, at any point: alone it gives 0, anywhere in the list it can be
  taken out without changing the result, and so can all expired ripples together.
\<close>

theorem expired_ripple_contributes_nothing:
  assumes "ripple_time r + 2000 \<le> t"
  shows "getRippleInfluence (s\<lparr>ripples := [r]\<rparr>) x y t = 0
       \<and> getRippleInfluence (s\<lparr>ripples := before @ r # after\<rparr>) x y t
           = getRippleInfluence (s\<lparr>ripples := before @ after\<rparr>) x y t
       \<and> getRippleInfluence s x y t
           = getRippleInfluence (s\<lparr>ripples := filter (\<lambda>r. t - ripple_time r < 2000) (ripples s)\<rparr>) x y t"
  using assms
  by (simp add: getRippleInfluence_sum ring_contribution_expired sum_contributions_live)

theorem expired_ripple_contributes_nothing_witness:
  "ripple_time \<lparr>ripple_x = 10, ripple_y = 10, ripple_time = 0, intensity = 2\<rparr> + 2000 \<le> (2000 :: real)
   \<and> getRippleInfluence
        (demo\<lparr>ripples := [\<lparr>ripple_x = 10, ripple_y = 10, ripple_time = 0, intensity = 2\<rparr>]\<rparr>)
        10 10 2000 = 0"
  using expired_ripple_contributes_nothing
    [of "\<lparr>ripple_x = 10, ripple_y = 10, ripple_time = 0, intensity = 2\<rparr>" 2000 demo 10 10 "[]" "[]"]
  by simp

text \<open>
  C5. \<^verbatim>\<open>getRippleInfluence\<close> is the sum over the ripples of the specification's
  contribution (nothing unless the ripple is live and its ring is within 40 of the point,
  else \<open>(1 - progress) * intensity * (1 - |distance - currentRadius| / 40)\<close>), capped at 2
  after the sum. A single ripple of intensity 2, queried 1000ms after its creation at a point
  75 from its centre, gives 1.
\<close>

theorem ripple_contribution_formula:
  "getRippleInfluence s x y t = min (sum_list (map (ring_contribution x y t) (ripples s))) 2
   \<and> (ripples s = [r] \<and> intensity r = 2 \<and> t = ripple_time r + 1000
        \<and> dist (Complex x y) (Complex (ripple_x r) (ripple_y r)) = 75
      \<longrightarrow> getRippleInfluence s x y t = 1)"
proof -
  have "ring_contribution x y (ripple_time r + 1000) r = 1"
    if "intensity r = 2" "dist (Complex x y) (Complex (ripple_x r) (ripple_y r)) = 75"
    using that by (simp add: ring_contribution_def)
  then show ?thesis by (auto simp: getRippleInfluence_sum)
qed

lemma sqrt_75: "sqrt 5625 = 75"
  by (rule real_sqrt_unique) simp_all

theorem ripple_contribution_formula_witness:
  "dist (Complex 75 0) (Complex 0 0) = 75
   \<and> getRippleInfluence
        (demo\<lparr>ripples := [\<lparr>ripple_x = 0, ripple_y = 0, ripple_time = 5000, intensity = 2\<rparr>]\<rparr>)
        75 0 6000 = 1"
  using ripple_contribution_formula
    [of "demo\<lparr>ripples := [\<lparr>ripple_x = 0, ripple_y = 0, ripple_time = 5000, intensity = 2\<rparr>]\<rparr>"
        75 0 6000 "\<lparr>ripple_x = 0, ripple_y = 0, ripple_time = 5000, intensity = 2\<rparr>"]
  by (simp add: dist_plane sqrt_75)

section \<open>Mouse influence\<close>

lemma getMouseInfluence_dist:
  "getMouseInfluence s x y =
     max 0 (1 - dist (Complex x y) (Complex (mouse_x (mouse s)) (mouse_y (mouse s))) / 100)"
  unfolding getMouseInfluence_def Let_def dist_plane ..

text \<open>
  C3. The mouse influence at \<open>(x, y)\<close> is \<open>max(0, 1 - distance/100)\<close> for the Euclidean
  distance to the pointer. It is 1 at the pointer and nowhere else, 0 exactly where the
  distance is at least 100, and it does not grow when the distance grows.
\<close>

theorem mouse_influence_falloff:
  "getMouseInfluence s x y =
     max 0 (1 - dist (Complex x y) (Complex (mouse_x (mouse s)) (mouse_y (mouse s))) / 100)
   \<and> getMouseInfluence s (mouse_x (mouse s)) (mouse_y (mouse s)) = 1
   \<and> (getMouseInfluence s x y = 1 \<longrightarrow> x = mouse_x (mouse s) \<and> y = mouse_y (mouse s))
   \<and> (getMouseInfluence s x y = 0
        \<longleftrightarrow> 100 \<le> dist (Complex x y) (Complex (mouse_x (mouse s)) (mouse_y (mouse s))))
   \<and> (dist (Complex x y) (Complex (mouse_x (mouse s)) (mouse_y (mouse s)))
        \<le> dist (Complex x' y') (Complex (mouse_x (mouse s)) (mouse_y (mouse s)))
      \<longrightarrow> getMouseInfluence s x' y' \<le> getMouseInfluence s x y)"
proof -
  define P where "P = Complex (mouse_x (mouse s)) (mouse_y (mouse s))"
  have nonneg: "0 \<le> dist (Complex x y) P" by simp
  have one: "x = mouse_x (mouse s) \<and> y = mouse_y (mouse s)"
    if "max 0 (1 - dist (Complex x y) P / 100) = 1"
  proof -
    from that nonneg have "dist (Complex x y) P = 0" by (simp add: max_def split: if_splits)
    then have "Complex x y = P" by simp
    then show ?thesis by (simp add: P_def)
  qed
  show ?thesis
    unfolding getMouseInfluence_dist P_def [symmetric]
    using one by (auto simp: max_def field_simps)
qed

lemma sqrt_100: "sqrt 10000 = 100"
  by (rule real_sqrt_unique) simp_all

theorem mouse_influence_falloff_witness:
  "getMouseInfluence demo 0 0 = 1
   \<and> 100 \<le> dist (Complex 60 80) (Complex (mouse_x (mouse demo)) (mouse_y (mouse demo)))
   \<and> getMouseInfluence demo 60 80 = 0
   \<and> dist (Complex 0 0) (Complex (mouse_x (mouse demo)) (mouse_y (mouse demo)))
        \<le> dist (Complex 60 80) (Complex (mouse_x (mouse demo)) (mouse_y (mouse demo)))
   \<and> getMouseInfluence demo 60 80 \<le> getMouseInfluence demo 0 0"
proof -
  have m: "mouse_x (mouse demo) = 0" "mouse_y (mouse demo) = 0"
    by (simp_all add: demo_def blank_def)
  have d: "dist (Complex 60 80) (Complex 0 0) = 100"
    by (simp add: dist_plane sqrt_100)
  show ?thesis
    using mouse_influence_falloff [of demo 60 80 0 0] mouse_influence_falloff [of demo 0 0 60 80]
    by (simp add: m d)
qed

section \<open>Reachable states\<close>

lemma initDots_frame:
  assumes "initDots rnd w h s = Some s'"
  shows "ripples s' = ripples s" "mouse s' = mouse s"
  using assms by (auto simp: initDots_def)

lemma resize_frame:
  assumes "resize p rnd s = Some (s', es)"
  shows "ripples s' = ripples s" "mouse s' = mouse s"
  using assms by (auto simp: resize_def Let_def dest: initDots_frame)

lemma animate_mounted_frame:
  "ripples (fst (animate_mounted t h s)) = ripples s"
  "mouse (fst (animate_mounted t h s)) = mouse s"
  by (simp_all add: animate_mounted_def Let_def)

lemma on_mousedown_ripples:
  "ripples (on_mousedown e r pushed now s) =
     filter (\<lambda>r. now - ripple_time r < 3000)
       (ripples s @ [\<lparr>ripple_x = clientX e - rect_left r, ripple_y = clientY e - rect_top r,
                      ripple_time = pushed, intensity = 2\<rparr>])"
  by (simp add: on_mousedown_def Let_def)

lemma on_touchstart_ripples:
  assumes "on_touchstart touches r now s = Inr s'"
  shows "\<exists>touch rest. touches = touch # rest \<and>
     ripples s' = ripples s @ [\<lparr>ripple_x = clientX touch - rect_left r,
                                ripple_y = clientY touch - rect_top r,
                                ripple_time = now, intensity = 2\<rparr>]"
  using assms by (auto simp: on_touchstart_def split: list.splits)

lemma init_frame:
  assumes "init h c s = Some (s', es)"
  shows "ripples s' = ripples s" "mouse s' = mouse s"
proof -
  from assms obtain s1 es1 where
    r: "resize (parent_rect c) (host_random h) s = Some (s1, es1)"
    and s': "s' = fst (animate_mounted (host_now h) (host_handle h) s1)"
    by (auto simp: init_def split: option.splits prod.splits)
  show "ripples s' = ripples s" "mouse s' = mouse s"
    unfolding s' using resize_frame [OF r] by (simp_all add: animate_mounted_frame)
qed

lemma constructor_ripples:
  assumes "constructor h canvasId opts = Some (Mounted s, es)"
  shows "ripples s = []"
proof (cases "getElementById h canvasId")
  case None
  with assms show ?thesis by (simp add: constructor_def)
next
  case (Some c)
  with assms obtain s0 where "init h c s0 = Some (s, es)" and "ripples s0 = []"
    by (auto simp: constructor_def)
  then show ?thesis using init_frame(1) by metis
qed

lemma dispatch_intensity:
  assumes "dispatch ev s = Some s'" "\<forall>r \<in> set (ripples s). intensity r = 2"
  shows "\<forall>r \<in> set (ripples s'). intensity r = 2"
proof (cases ev)
  case (Resized p rnd)
  with assms show ?thesis by (auto dest: resize_frame(1))
next
  case (MouseMove e r)
  with assms show ?thesis by (auto simp: on_mousemove_def)
next
  case (MouseDown e r pushed now)
  with assms show ?thesis by (auto simp: on_mousedown_ripples split: if_splits)
next
  case MouseUp
  with assms show ?thesis by (auto simp: on_mouseup_def)
next
  case (TouchStart touches r now)
  with assms show ?thesis
    by (auto split: sum.splits dest!: on_touchstart_ripples)
next
  case (Frame t h)
  with assms show ?thesis by (auto simp: animate_mounted_frame)
qed

lemma reachable_intensity:
  "reachable s \<Longrightarrow> \<forall>r \<in> set (ripples s). intensity r = 2"
proof (induction rule: reachable.induct)
  case (constructed h canvasId opts s es)
  then show ?case by (simp add: constructor_ripples)
next
  case (dispatched s ev s')
  then show ?case using dispatch_intensity by blast
qed

lemma grid_count_20_20: "grid_count 20 20 = 1"
  unfolding grid_count_def by simp linarith

lemma grid_20_20: "grid 20 random_zero 20 20 = [grid_dot 10 10 0]"
  by (simp add: grid_def grid_row_def grid_count_20_20 random_zero_def)

lemma demo_constructed:
  "\<exists>es. constructor demo_host ''profile-canvas'' no_options = Some (Mounted demo, es)"
proof -
  have "initDots random_zero 20 20 (blank\<lparr>canvas_width := 20, canvas_height := 20\<rparr>)
      = Some (blank\<lparr>canvas_width := 20, canvas_height := 20, dots := [grid_dot 10 10 0]\<rparr>)"
    using initDots_x_grid_20 [of 20 20 random_zero]
    by (simp add: initDots_def blank_def grid_20_20)
  then have "\<exists>es. resize (parent_rect demo_canvas) random_zero blank
      = Some (blank\<lparr>canvas_width := 20, canvas_height := 20, dots := [grid_dot 10 10 0]\<rparr>, es)"
    by (simp add: resize_def demo_canvas_def Let_def blank_def)
  moreover have "fst (animate_mounted 0 1
       (blank\<lparr>canvas_width := 20, canvas_height := 20, dots := [grid_dot 10 10 0]\<rparr>)) = demo"
    by (simp add: animate_mounted_def Let_def drawDot_def demo_def blank_def grid_dot_def)
  ultimately show ?thesis
    by (auto simp: constructor_def init_def demo_host_def demo_canvas_def no_options_def
        or_string_def or_number_def blank_def split: prod.splits)
qed

lemma reachable_demo: "reachable demo"
  using demo_constructed constructed by blast

section \<open>Ripple bounds, construction and the handlers\<close>

lemma reachable_pressed_twice: "reachable pressed_twice"
proof -
  have "dispatch (MouseDown at_dot origin 0 0) demo = Some (on_mousedown at_dot origin 0 0 demo)"
    by simp
  with reachable_demo have "reachable (on_mousedown at_dot origin 0 0 demo)"
    by (rule dispatched)
  moreover have "dispatch (MouseDown at_dot origin 0 0) (on_mousedown at_dot origin 0 0 demo)
      = Some pressed_twice"
    by (simp add: pressed_twice_def)
  ultimately show ?thesis by (rule dispatched)
qed

lemma ripples_pressed_twice:
  "ripples pressed_twice =
     [\<lparr>ripple_x = 10, ripple_y = 10, ripple_time = 0, intensity = 2\<rparr>,
      \<lparr>ripple_x = 10, ripple_y = 10, ripple_time = 0, intensity = 2\<rparr>]"
  by (simp add: pressed_twice_def on_mousedown_ripples at_dot_def origin_def demo_def blank_def)

lemma influence_pressed_twice: "getRippleInfluence pressed_twice 10 10 0 = 2"
  by (simp add: getRippleInfluence_def ripples_pressed_twice ripple_step_def)

text \<open>
  C4. Whatever the ripples, their ages and the point, \<^verbatim>\<open>getRippleInfluence\<close> returns at
  most 2; it returns a non-negative value whenever no ripple has a negative intensity, and so
  in every state the instance can reach, where every ripple has the intensity 2 the handlers
  give it.
\<close>

theorem ripple_influence_bounds:
  "getRippleInfluence s x y t \<le> 2
   \<and> ((\<forall>r \<in> set (ripples s). 0 \<le> intensity r) \<longrightarrow> 0 \<le> getRippleInfluence s x y t)
   \<and> (reachable s \<longrightarrow> 0 \<le> getRippleInfluence s x y t)"
proof -
  have nonneg: "0 \<le> getRippleInfluence s x y t" if "\<forall>r \<in> set (ripples s). 0 \<le> intensity r"
    using sum_contributions_nonneg [OF that, of x y t] by (simp add: getRippleInfluence_sum)
  moreover have "\<forall>r \<in> set (ripples s). 0 \<le> intensity r" if "reachable s"
    using reachable_intensity [OF that] by simp
  moreover have "getRippleInfluence s x y t \<le> 2"
    by (simp add: getRippleInfluence_def)
  ultimately show ?thesis by blast
qed

theorem ripple_influence_bounds_witness:
  "reachable pressed_twice \<and> length (ripples pressed_twice) = 2
   \<and> getRippleInfluence pressed_twice 10 10 0 = 2
   \<and> 0 \<le> getRippleInfluence pressed_twice 10 10 0
   \<and> getRippleInfluence pressed_twice 10 10 0 \<le> 2"
  using ripple_influence_bounds [of pressed_twice 10 10 0] reachable_pressed_twice
  by (simp add: ripples_pressed_twice influence_pressed_twice)

text \<open>
  C7. When the identifier resolves to no element the constructor returns an instance that
  holds nothing, and has no effect on the host: nothing is drawn, no listener is registered,
  no frame is requested and nothing is thrown. \<^verbatim>\<open>animate\<close> on that instance does nothing
  either.
\<close>

theorem constructor_without_canvas:
  assumes "getElementById h canvasId = None"
  shows "constructor h canvasId opts = Some (Unmounted, [])
       \<and> animate t k Unmounted = (Unmounted, [])"
  using assms by (simp add: constructor_def)

theorem constructor_without_canvas_witness:
  "getElementById demo_host ''no-such-canvas'' = None
   \<and> constructor demo_host ''no-such-canvas'' no_options = Some (Unmounted, [])"
proof -
  have none: "getElementById demo_host ''no-such-canvas'' = None"
    by (simp add: demo_host_def)
  from constructor_without_canvas [OF none, of no_options 0 1] none show ?thesis by simp
qed

lemma on_mousedown_prunes:
  "\<forall>r \<in> set (ripples (on_mousedown e rc pushed now s)). now - ripple_time r < 3000"
  by (simp add: on_mousedown_ripples)

lemma reachable_touched_twice: "reachable touched_twice"
proof -
  let ?once = "demo\<lparr>ripples := [\<lparr>ripple_x = 10, ripple_y = 10, ripple_time = 0, intensity = 2\<rparr>]\<rparr>"
  have "dispatch (TouchStart [at_dot] origin 0) demo = Some ?once"
    by (simp add: on_touchstart_def at_dot_def origin_def demo_def blank_def)
  with reachable_demo have "reachable ?once"
    by (rule dispatched)
  moreover have "dispatch (TouchStart [at_dot] origin 5000) ?once = Some touched_twice"
    by (simp add: on_touchstart_def touched_twice_def at_dot_def origin_def demo_def blank_def)
  ultimately show ?thesis by (rule dispatched)
qed

text \<open>
  C8. The mouse-down handler filters the ripple list after it has pushed the new ripple
  (\<open>on_mousedown_prunes\<close>); the touch-start handler pushes and does not filter. After a
  touch at time 0 and a touch at time 5000, on the instance just constructed, the list still
  holds the first ripple, whose age is then 5000.
\<close>

theorem touchstart_does_not_prune:
  "on_touchstart [at_dot] origin 0 demo
     = Inr (demo\<lparr>ripples := [\<lparr>ripple_x = 10, ripple_y = 10, ripple_time = 0, intensity = 2\<rparr>]\<rparr>)
   \<and> on_touchstart [at_dot] origin 5000
        (demo\<lparr>ripples := [\<lparr>ripple_x = 10, ripple_y = 10, ripple_time = 0, intensity = 2\<rparr>]\<rparr>)
     = Inr touched_twice
   \<and> reachable touched_twice
   \<and> map ripple_time (ripples touched_twice) = [0, 5000]"
  using reachable_touched_twice
  by (simp add: on_touchstart_def touched_twice_def at_dot_def origin_def demo_def blank_def)

text \<open>
  C9. A touch-start appends exactly one ripple, of intensity 2, with the current timestamp,
  at the position of the first touch relative to the canvas, and changes nothing else of the
  instance: the pointer state, \<open>isDown\<close> included, is as it was.
\<close>

theorem touchstart_appends_one_ripple:
  "\<exists>s'. on_touchstart (touch # rest) r now s = Inr s'
     \<and> ripples s' = ripples s @ [\<lparr>ripple_x = clientX touch - rect_left r,
                                    ripple_y = clientY touch - rect_top r,
                                    ripple_time = now, intensity = 2\<rparr>]
     \<and> mouse s' = mouse s
     \<and> s' = s\<lparr>ripples := ripples s'\<rparr>"
  by (simp add: on_touchstart_def)

theorem touchstart_appends_one_ripple_witness:
  "\<exists>s'. on_touchstart [at_dot] origin 5000 demo = Inr s'
     \<and> ripples s' = [\<lparr>ripple_x = 10, ripple_y = 10, ripple_time = 5000, intensity = 2\<rparr>]
     \<and> isDown (mouse s') = False"
  using touchstart_appends_one_ripple [of at_dot "[]" origin 5000 demo]
  by (auto simp: at_dot_def origin_def demo_def blank_def)

lemma drawDot_keeps:
  "originalX (fst (drawDot s t d)) = originalX d"
  "originalY (fst (drawDot s t d)) = originalY d"
  "phase (fst (drawDot s t d)) = phase d"
  by (simp_all add: drawDot_def Let_def)

lemma dispatch_prefix:
  assumes "dispatch ev s = Some s'" "\<forall>e rc pushed now. ev \<noteq> MouseDown e rc pushed now"
  shows "prefix (ripples s) (ripples s')"
proof (cases ev)
  case (Resized p rnd)
  with assms show ?thesis by (auto dest: resize_frame(1))
next
  case (MouseMove e r)
  with assms show ?thesis by (auto simp: on_mousemove_def)
next
  case (MouseDown e r pushed now)
  with assms show ?thesis by simp
next
  case MouseUp
  with assms show ?thesis by (auto simp: on_mouseup_def)
next
  case (TouchStart touches r now)
  with assms show ?thesis
    by (auto split: sum.splits dest!: on_touchstart_ripples)
next
  case (Frame t h)
  with assms show ?thesis by (auto simp: animate_mounted_frame)
qed

text \<open>
  C10. The frame callback leaves the ripple list as it is, and every dot's
  \<^verbatim>\<open>originalX\<close>, \<^verbatim>\<open>originalY\<close> and \<^verbatim>\<open>phase\<close>; a ripple of age 2000 or more is
  skipped when the waves are drawn. No listener other than mouse-down ever removes a ripple:
  the list before is a prefix of the list after. Mouse-down keeps, of the list and the new
  ripple, those younger than 3000. (The two influence functions return a number and have no
  access to the instance but to read it.)
\<close>

theorem frame_keeps_ripples_and_dots:
  "ripples (fst (animate_mounted t h s)) = ripples s
   \<and> map originalX (dots (fst (animate_mounted t h s))) = map originalX (dots s)
   \<and> map originalY (dots (fst (animate_mounted t h s))) = map originalY (dots s)
   \<and> map phase (dots (fst (animate_mounted t h s))) = map phase (dots s)
   \<and> (ripple_time r + 2000 \<le> t \<longrightarrow> drawWave t r = [])
   \<and> (dispatch ev s = Some s' \<and> (\<forall>e rc pushed now. ev \<noteq> MouseDown e rc pushed now)
        \<longrightarrow> prefix (ripples s) (ripples s'))
   \<and> ripples (on_mousedown e rc pushed now s) =
        filter (\<lambda>r. now - ripple_time r < 3000)
          (ripples s @ [\<lparr>ripple_x = clientX e - rect_left rc, ripple_y = clientY e - rect_top rc,
                         ripple_time = pushed, intensity = 2\<rparr>])"
proof -
  have "map originalX (dots (fst (animate_mounted t h s))) = map originalX (dots s)"
    "map originalY (dots (fst (animate_mounted t h s))) = map originalY (dots s)"
    "map phase (dots (fst (animate_mounted t h s))) = map phase (dots s)"
    by (simp_all add: animate_mounted_def Let_def comp_def drawDot_keeps)
  moreover have "drawWave t r = []" if "ripple_time r + 2000 \<le> t"
    using that by (simp add: drawWave_def)
  ultimately show ?thesis
    using dispatch_prefix [of ev s s'] on_mousedown_ripples [of e rc pushed now s]
    by (simp add: animate_mounted_frame)
qed

theorem frame_keeps_ripples_and_dots_witness:
  "ripple_time \<lparr>ripple_x = 10, ripple_y = 10, ripple_time = 0, intensity = 2\<rparr> + 2000 \<le> (5000 :: real)
   \<and> dispatch (Frame 5000 2) touched_twice = Some (fst (animate_mounted 5000 2 touched_twice))
   \<and> ripples (fst (animate_mounted 5000 2 touched_twice)) = ripples touched_twice
   \<and> length (ripples touched_twice) = 2
   \<and> drawWave 5000 \<lparr>ripple_x = 10, ripple_y = 10, ripple_time = 0, intensity = 2\<rparr> = []
   \<and> prefix (ripples touched_twice) (ripples (fst (animate_mounted 5000 2 touched_twice)))
   \<and> length (ripples (on_mousedown at_dot origin 5000 5000 touched_twice)) = 2"
  using frame_keeps_ripples_and_dots
    [of 5000 2 touched_twice "\<lparr>ripple_x = 10, ripple_y = 10, ripple_time = 0, intensity = 2\<rparr>"
        "Frame 5000 2" "fst (animate_mounted 5000 2 touched_twice)" at_dot origin 5000 5000]
  by (simp add: touched_twice_def)

section \<open>The frame\<close>

lemma reachable_hovered_press: "reachable hovered_press"
proof -
  have "dispatch (MouseMove at_dot origin) demo = Some (on_mousemove at_dot origin demo)"
    by simp
  with reachable_demo have "reachable (on_mousemove at_dot origin demo)"
    by (rule dispatched)
  moreover have "dispatch (MouseDown at_dot origin 0 0) (on_mousemove at_dot origin demo)
      = Some hovered_press"
    by (simp add: hovered_press_def)
  ultimately show ?thesis by (rule dispatched)
qed

lemma drawDot_paints:
  "snd (drawDot (s\<lparr>time := time s + animationSpeed s\<rparr>) t d) =
     [BeginPath, Arc (originalX d) (originalY d) (painted_radius s t d) 0 (pi * 2),
      FillStyle (dotColor s) (painted_opacity s t d), Fill]"
  by (simp add: drawDot_def Let_def painted_radius_def painted_opacity_def total_influence_def
      getMouseInfluence_def getRippleInfluence_def)

lemma hovered_press_fields:
  "mouse hovered_press = \<lparr>mouse_x = 10, mouse_y = 10, isDown = True\<rparr>"
  "ripples hovered_press = [\<lparr>ripple_x = 10, ripple_y = 10, ripple_time = 0, intensity = 2\<rparr>]"
  "time hovered_press = 0.05" "animationSpeed hovered_press = 0.05"
  "dots hovered_press = [grid_dot 10 10 0]"
  by (simp_all add: hovered_press_def on_mousedown_def on_mousemove_def Let_def
      at_dot_def origin_def demo_def blank_def)

lemma total_influence_hovered_press:
  "total_influence hovered_press 0 (grid_dot 10 10 0) = 3"
  by (simp add: total_influence_def getMouseInfluence_def getRippleInfluence_def
      hovered_press_fields ripple_step_def grid_dot_def)

lemma opacity_hovered_press:
  "1 < painted_opacity hovered_press 0 (grid_dot 10 10 0)"
proof -
  have "0 \<le> \<bar>sin ((time hovered_press + animationSpeed hovered_press) * 0.5
                   + phase (grid_dot 10 10 0))\<bar> * 0.1"
    by simp
  then show ?thesis
    unfolding painted_opacity_def total_influence_hovered_press by simp
qed

text \<open>
  C6. A frame paints, for every dot in turn, a circle at the dot's original position whose
  radius is \<open>1.5 + totalInfluence * 3 + sin(time + phase) * 0.5\<close> floored at 0 and whose
  opacity is \<open>max(0.3, 0.6 + totalInfluence * 0.4 + |sin(time * 0.5 + phase)| * 0.1)\<close>, where
  \<open>totalInfluence\<close> is the plain sum of the mouse and the ripple influence and \<open>time\<close> the
  time just advanced. The opacity is never below 0.3. The sum is not capped: in the reachable
  state \<open>hovered_press\<close> it is 3 and the opacity is above 1.
\<close>

theorem frame_paints_dots:
  "snd (animate_mounted t h s) =
     ClearRect 0 0 (real_of_int (canvas_width s) / dpr s) (real_of_int (canvas_height s) / dpr s)
       # concat (map (\<lambda>d. [BeginPath,
                             Arc (originalX d) (originalY d) (painted_radius s t d) 0 (pi * 2),
                             FillStyle (dotColor s) (painted_opacity s t d), Fill]) (dots s))
       @ (if removeWaveLine s then [] else concat (map (drawWave t) (ripples s)))
       @ [RequestAnimationFrame]
   \<and> 0 \<le> painted_radius s t d \<and> 0.3 \<le> painted_opacity s t d
   \<and> reachable hovered_press
   \<and> total_influence hovered_press 0 (grid_dot 10 10 0) = 3
   \<and> 1 < painted_opacity hovered_press 0 (grid_dot 10 10 0)"
proof -
  have "snd (animate_mounted t h s) =
     ClearRect 0 0 (real_of_int (canvas_width s) / dpr s) (real_of_int (canvas_height s) / dpr s)
       # concat (map (\<lambda>d. [BeginPath,
                             Arc (originalX d) (originalY d) (painted_radius s t d) 0 (pi * 2),
                             FillStyle (dotColor s) (painted_opacity s t d), Fill]) (dots s))
       @ (if removeWaveLine s then [] else concat (map (drawWave t) (ripples s)))
       @ [RequestAnimationFrame]"
    by (simp add: animate_mounted_def Let_def comp_def drawDot_paints)
  moreover have "0 \<le> painted_radius s t d" by (simp add: painted_radius_def)
  moreover have "0.3 \<le> painted_opacity s t d" by (simp add: painted_opacity_def)
  ultimately show ?thesis
    using reachable_hovered_press total_influence_hovered_press opacity_hovered_press by blast
qed

theorem frame_paints_dots_witness:
  "snd (animate_mounted 0 2 hovered_press) =
     [ClearRect 0 0 20 20, BeginPath,
      Arc 10 10 (painted_radius hovered_press 0 (grid_dot 10 10 0)) 0 (pi * 2),
      FillStyle ''#FFD700'' (painted_opacity hovered_press 0 (grid_dot 10 10 0)), Fill,
      BeginPath, StrokeStyle 0.6, LineWidth 1, Arc 10 10 0 0 (pi * 2), Stroke,
      RequestAnimationFrame]
   \<and> 10 \<le> painted_radius hovered_press 0 (grid_dot 10 10 0)"
proof -
  have f: "canvas_width hovered_press = 20" "canvas_height hovered_press = 20"
    "dpr hovered_press = 1" "dotColor hovered_press = ''#FFD700''"
    "removeWaveLine hovered_press = False"
    by (simp_all add: hovered_press_def on_mousedown_def on_mousemove_def Let_def
        demo_def blank_def)
  define v where "v = sin (time hovered_press + animationSpeed hovered_press + phase (grid_dot 10 10 0))"
  have "- 1 \<le> v" unfolding v_def by simp
  then have "10 \<le> max 0 (1.5 + 3 * 3 + v * 0.5)" by (auto simp: max_def)
  then have "10 \<le> painted_radius hovered_press 0 (grid_dot 10 10 0)"
    unfolding painted_radius_def total_influence_hovered_press v_def .
  then show ?thesis
    using frame_paints_dots [of 0 2 hovered_press "grid_dot 10 10 0"]
    by (simp add: f hovered_press_fields drawWave_def grid_dot_def)
qed

end
